theory Spec2Isabelle
  imports Complex_Main
begin

section \<open>Common data: Python values, frames, regions\<close>

text \<open>
  The exceptions the modelled code can raise. Every \<^verbatim>\<open>raise\<close> of the source, and every
  failure of an external primitive (OpenCV, ffmpeg, the file system), is a value of this type.
\<close>

datatype py_error =
    ValueError
  | AttributeError
  | ZeroDivisionError
  | UnboundLocalError
  | OSError
  | CvError
  | FfmpegError
  | CallbackError

text \<open>
  A decoded image (a numpy array of shape \<^verbatim>\<open>(height, width, 3)\<close>): \<^verbatim>\<open>image.shape[0]\<close> is
  \<open>fheight\<close>, \<^verbatim>\<open>image.shape[1]\<close> is \<open>fwidth\<close>, and \<open>pixels\<close> are its bytes.
\<close>

record frame =
  fheight :: nat
  fwidth :: nat
  pixels :: "nat list"

text \<open>A region is the tuple \<^verbatim>\<open>(x, y, width, height)\<close> the processors store.\<close>

type_synonym region = "int \<times> int \<times> int \<times> int"

text \<open>
  Python's \<^verbatim>\<open>int(v)\<close> on a float truncates towards zero. Floats are modelled as exact
  rationals.
\<close>

definition py_int :: "rat \<Rightarrow> int" where
  "py_int q = (if 0 \<le> q then \<lfloor>q\<rfloor> else \<lceil>q\<rceil>)"

section \<open>core/image\_processor.py: watermark detection\<close>

text \<open>
  A contour as OpenCV returns it, by the two quantities the detector reads from it:
  \<^verbatim>\<open>cv2.contourArea(contour)\<close> and \<^verbatim>\<open>cv2.boundingRect(contour)\<close>.
\<close>

record contour =
  contourArea :: rat
  boundingRect :: region

text \<open>\<^verbatim>\<open>min_area = image.shape[0] * image.shape[1] * 0.001\<close> and the same with \<^verbatim>\<open>0.2\<close>.\<close>

definition min_area :: "frame \<Rightarrow> rat" where
  "min_area img = of_nat (fheight img * fwidth img) * (1 / 1000)"

definition max_area :: "frame \<Rightarrow> rat" where
  "max_area img = of_nat (fheight img * fwidth img) * (2 / 10)"

text \<open>The loop that appends to \<^verbatim>\<open>valid_contours\<close> every contour with
  \<^verbatim>\<open>min_area < area < max_area\<close>, in order.\<close>

definition valid_contours :: "frame \<Rightarrow> contour list \<Rightarrow> contour list" where
  "valid_contours img contours =
     filter (\<lambda>c. min_area img < contourArea c \<and> contourArea c < max_area img) contours"

text \<open>
  The score of a candidate:
  \<^verbatim>\<open>solidity = contourArea / (w * h) if w * h != 0 else 0\<close>,
  \<^verbatim>\<open>center_y = y + h/2\<close>,
  \<^verbatim>\<open>score = solidity * (1 - abs(0.5 - center_y/image.shape[0]))\<close>.
\<close>

definition score :: "frame \<Rightarrow> contour \<Rightarrow> rat" where
  "score img c =
     (case boundingRect c of (x, y, w, h) \<Rightarrow>
        let solidity = (if w * h \<noteq> 0 then contourArea c / of_int (w * h) else 0);
            center_y = of_int y + of_int h / 2
        in solidity * (1 - \<bar>1 / 2 - center_y / of_nat (fheight img)\<bar>))"

text \<open>Python's \<^verbatim>\<open>max(items, key=...)\<close>: the first item whose key is maximal.\<close>

primrec max_first :: "('a \<times> rat) \<Rightarrow> ('a \<times> rat) list \<Rightarrow> 'a \<times> rat" where
  "max_first b [] = b"
| "max_first b (p # ps) = max_first (if snd b < snd p then p else b) ps"

text \<open>The padding of the chosen rectangle by 5 pixels, clamped to the image.\<close>

definition pad_region :: "frame \<Rightarrow> region \<Rightarrow> region" where
  "pad_region img r =
     (case r of (x, y, w, h) \<Rightarrow>
        let padding = 5;
            x' = max 0 (x - padding);
            y' = max 0 (y - padding);
            w' = min (int (fwidth img) - x') (w + 2 * padding);
            h' = min (int (fheight img) - y') (h + 2 * padding)
        in (x', y', w', h'))"

text \<open>
  \<^verbatim>\<open>ImageProcessor.auto_detect_watermark\<close>. \<open>read_image\<close> is the method of that name
  (\<open>None\<close> when the file cannot be decoded); \<open>find_contours\<close> is the OpenCV chain from
  \<^verbatim>\<open>cvtColor\<close> to \<^verbatim>\<open>findContours\<close>. The result is \<open>Inl\<close> for a raised exception,
  \<open>Inr None\<close> for a returned \<^verbatim>\<open>None\<close>, \<open>Inr (Some r)\<close> for a returned tuple.
\<close>

definition auto_detect_watermark ::
  "(string \<Rightarrow> frame option) \<Rightarrow> (frame \<Rightarrow> contour list) \<Rightarrow> string \<Rightarrow> py_error + region option"
where
  "auto_detect_watermark read_image find_contours image_path =
     (case read_image image_path of
        None \<Rightarrow> Inl ValueError
      | Some img \<Rightarrow>
          let contours = find_contours img in
          if contours = [] then Inr None
          else
            let valid = valid_contours img contours in
            if valid = [] then Inr None
            else if length valid > 1 then
              let contour_features = map (\<lambda>c. (c, score img c)) valid;
                  best_contour = fst (max_first (hd contour_features) (tl contour_features))
              in Inr (Some (pad_region img (boundingRect best_contour)))
            else Inr (Some (pad_region img (boundingRect (hd valid)))))"

section \<open>core/image\_processor.py: removal\<close>

text \<open>
  The two algorithms of \<^verbatim>\<open>cv2.inpaint\<close>. The primitive itself is external: it is a
  parameter of every function that calls it, and yields \<open>None\<close> when OpenCV raises.
\<close>

datatype inpaint_flag = INPAINT_NS | INPAINT_TELEA

type_synonym mask = "nat list list"

type_synonym inpaint_prim = "frame \<Rightarrow> mask \<Rightarrow> int \<Rightarrow> inpaint_flag \<Rightarrow> frame option"

text \<open>
  The attributes \<^verbatim>\<open>ImageProcessor.__init__\<close> sets (\<open>method_name\<close> is
  \<^verbatim>\<open>self.method\<close>). \<^verbatim>\<open>VideoProcessor\<close> has the same three and its own, so its
  record extends this one.
\<close>

record image_processor =
  watermark_region :: "region option"
  inpaint_radius :: int
  method_name :: string

definition image_processor_init :: image_processor where
  "image_processor_init =
     \<lparr>watermark_region = None, inpaint_radius = 3, method_name = ''telea''\<rparr>"

text \<open>\<^verbatim>\<open>ImageProcessor.set_watermark_region\<close>: the tuple is stored as it comes.\<close>

definition set_watermark_region ::
  "image_processor \<Rightarrow> int \<Rightarrow> int \<Rightarrow> int \<Rightarrow> int \<Rightarrow> image_processor" where
  "set_watermark_region self x y width height =
     self\<lparr>watermark_region := Some (x, y, width, height)\<rparr>"

text \<open>
  A bound of a Python slice on an axis of length \<open>n\<close>: a negative index counts from the
  end, and the result is clipped to \<open>0..n\<close>.
\<close>

definition slice_bound :: "int \<Rightarrow> int \<Rightarrow> int" where
  "slice_bound n i = (if i < 0 then max 0 (i + n) else min i n)"

text \<open>
  \<^verbatim>\<open>mask = np.zeros(image.shape[:2], dtype=np.uint8); mask[y:y+h, x:x+w] = 255\<close>,
  as a list of rows.
\<close>

definition make_mask :: "frame \<Rightarrow> region \<Rightarrow> mask" where
  "make_mask img r =
     (case r of (x, y, w, h) \<Rightarrow>
        let rows = int (fheight img); cols = int (fwidth img);
            r0 = slice_bound rows y; r1 = slice_bound rows (y + h);
            c0 = slice_bound cols x; c1 = slice_bound cols (x + w)
        in map (\<lambda>i. map (\<lambda>j. if r0 \<le> int i \<and> int i < r1 \<and> c0 \<le> int j \<and> int j < c1
                               then 255 else 0)
                      [0 ..< fwidth img])
               [0 ..< fheight img])"

text \<open>
  \<^verbatim>\<open>ImageProcessor.remove_watermark\<close>. \<open>save_ok\<close> tells whether \<^verbatim>\<open>save_image\<close> succeeds
  on a path (it raises ValueError otherwise). The result is the file written: its path
  and the frame saved in it.
\<close>

definition remove_watermark ::
  "inpaint_prim \<Rightarrow> (string \<Rightarrow> frame option) \<Rightarrow> (string \<Rightarrow> bool) \<Rightarrow> image_processor \<Rightarrow>
     string \<Rightarrow> string \<Rightarrow> py_error + (string \<times> frame)" where
  "remove_watermark inpaint read_image save_ok self input_path output_path =
     (case watermark_region self of
        None \<Rightarrow> Inl ValueError
      | Some r \<Rightarrow>
          (case read_image input_path of
             None \<Rightarrow> Inl ValueError
           | Some img \<Rightarrow>
               let mask = make_mask img r;
                   radius = inpaint_radius self
               in (case inpaint img mask radius INPAINT_TELEA of
                     None \<Rightarrow> Inl CvError
                   | Some result \<Rightarrow>
                       if save_ok output_path then Inr (output_path, result)
                       else Inl ValueError)))"

text \<open>
  \<^verbatim>\<open>ImageProcessor.preview_removal\<close>. There is no check of the image read: on an
  undecodable file \<^verbatim>\<open>image.shape\<close> raises AttributeError.
\<close>

definition preview_removal ::
  "inpaint_prim \<Rightarrow> (string \<Rightarrow> frame option) \<Rightarrow> image_processor \<Rightarrow> string \<Rightarrow> py_error + frame"
where
  "preview_removal inpaint read_image self image_path =
     (case watermark_region self of
        None \<Rightarrow> Inl ValueError
      | Some r \<Rightarrow>
          (case read_image image_path of
             None \<Rightarrow> Inl AttributeError
           | Some img \<Rightarrow>
               let mask = make_mask img r in
               (case (if method_name self = ''telea''
                      then inpaint img mask (inpaint_radius self) INPAINT_TELEA
                      else inpaint img mask (inpaint_radius self) INPAINT_NS) of
                  None \<Rightarrow> Inl CvError
                | Some result \<Rightarrow> Inr result)))"

section \<open>core/video\_processor.py\<close>

text \<open>
  The attributes of \<^verbatim>\<open>VideoProcessor\<close> (the capture handle and the worker count apart):
  \<open>watermark_region\<close>, \<open>inpaint_radius\<close> and \<open>method_name\<close> as above, and what
  \<^verbatim>\<open>load_video\<close> records. \<open>vwidth\<close> and \<open>vheight\<close> are \<^verbatim>\<open>self.width\<close> and
  \<^verbatim>\<open>self.height\<close>.
\<close>

record video_processor = image_processor +
  video_path :: "string option"
  total_frames :: int
  fps :: int
  vwidth :: int
  vheight :: int

definition video_processor_init :: video_processor where
  "video_processor_init =
     \<lparr>watermark_region = None, inpaint_radius = 3, method_name = ''telea'',
      video_path = None, total_frames = 0, fps = 0, vwidth = 0, vheight = 0\<rparr>"

text \<open>
  \<^verbatim>\<open>VideoProcessor.set_watermark_region\<close>: each argument goes through \<^verbatim>\<open>int(...)\<close>
  and the tuple is stored.
\<close>

definition video_set_watermark_region ::
  "video_processor \<Rightarrow> rat \<Rightarrow> rat \<Rightarrow> rat \<Rightarrow> rat \<Rightarrow> video_processor" where
  "video_set_watermark_region self x y w h =
     self\<lparr>watermark_region := Some (py_int x, py_int y, py_int w, py_int h)\<rparr>"

text \<open>The body of the \<^verbatim>\<open>try\<close> block of \<^verbatim>\<open>process_frame\<close>.\<close>

definition process_frame_try ::
  "inpaint_prim \<Rightarrow> video_processor \<Rightarrow> frame \<Rightarrow> region \<Rightarrow> py_error + frame" where
  "process_frame_try inpaint self frame r =
     (let mask = make_mask frame r in
      case (if method_name self = ''telea''
            then inpaint frame mask (inpaint_radius self) INPAINT_TELEA
            else inpaint frame mask (inpaint_radius self) INPAINT_NS) of
        None \<Rightarrow> Inl CvError
      | Some result \<Rightarrow> Inr result)"

text \<open>
  \<^verbatim>\<open>VideoProcessor.process_frame\<close>. The frame is optional, as in the source
  (\<^verbatim>\<open>frame is None\<close>). \<open>Inl\<close> would be an exception leaving the method.
\<close>

definition process_frame ::
  "inpaint_prim \<Rightarrow> video_processor \<Rightarrow> frame option \<Rightarrow> py_error + frame option" where
  "process_frame inpaint self frame =
     (case frame of
        None \<Rightarrow> Inr frame
      | Some f \<Rightarrow>
          (case watermark_region self of
             None \<Rightarrow> Inr frame
           | Some r \<Rightarrow>
               (case process_frame_try inpaint self f r of
                  Inl e \<Rightarrow> Inr frame
                | Inr result \<Rightarrow> Inr (Some result))))"

subsection \<open>Paths and file names\<close>

text \<open>\<^verbatim>\<open>os.path.join(a, b)\<close> and \<^verbatim>\<open>os.path.dirname(p)\<close> of \<^verbatim>\<open>posixpath\<close>.\<close>

definition path_join :: "string \<Rightarrow> string \<Rightarrow> string" where
  "path_join a b =
     (if b \<noteq> [] \<and> hd b = CHR ''/'' then b
      else if a = [] \<or> last a = CHR ''/'' then a @ b
      else a @ ''/'' @ b)"

definition dirname :: "string \<Rightarrow> string" where
  "dirname p =
     (let head = rev (dropWhile (\<lambda>c. c \<noteq> CHR ''/'') (rev p)) in
      if head \<noteq> [] \<and> \<not> list_all (\<lambda>c. c = CHR ''/'') head
      then rev (dropWhile (\<lambda>c. c = CHR ''/'') (rev head))
      else head)"

text \<open>The decimal digits of a number, and \<^verbatim>\<open>f"frame_{current_frame:06d}.jpg"\<close>.\<close>

fun digits :: "nat \<Rightarrow> string" where
  "digits n =
     (if n < 10 then [''0123456789'' ! n]
      else digits (n div 10) @ [''0123456789'' ! (n mod 10)])"

declare digits.simps [simp del]

definition frame_name :: "nat \<Rightarrow> string" where
  "frame_name n =
     ''frame_'' @ replicate (6 - length (digits n)) CHR ''0'' @ digits n @ ''.jpg''"

subsection \<open>The world a video run acts on\<close>

text \<open>
  The ffmpeg invocation that \<^verbatim>\<open>ffmpeg.input\<close>, \<^verbatim>\<open>ffmpeg.output\<close> and \<^verbatim>\<open>ffmpeg.run\<close>
  build: the input streams given to \<^verbatim>\<open>ffmpeg.output\<close> (file name or pattern, with its
  \<^verbatim>\<open>framerate\<close>), the output file and the keyword arguments.
\<close>

record ffmpeg_cmd =
  inputs :: "(string \<times> int) list"
  output_file :: string
  vcodec :: string
  pix_fmt :: string
  preset :: string
  crf :: int
  acodec :: string
  overwrite_output :: bool

text \<open>
  The state a run reads and changes: the directories that exist, each with the names
  in it; the stills written by \<^verbatim>\<open>cv2.imwrite\<close> (path and frame), in order; the
  progress values passed to the callback, in order; the ffmpeg invocations run.
\<close>

record world =
  dirs :: "string \<Rightarrow> string list option"
  written :: "(string \<times> frame option) list"
  delivered :: "rat list"
  ffmpeg_runs :: "ffmpeg_cmd list"

text \<open>
  What the outside decides during one run: whether \<^verbatim>\<open>os.makedirs\<close> succeeds, whether
  the capture opens, the value of \<^verbatim>\<open>int(cap.get(cv2.CAP_PROP_FRAME_COUNT))\<close>, the frames
  that \<^verbatim>\<open>cap.read()\<close> returns before it reports the end, whether \<^verbatim>\<open>ffmpeg.run\<close>
  succeeds, and which \<^verbatim>\<open>os.remove\<close> and \<^verbatim>\<open>os.rmdir\<close> calls succeed.
\<close>

record env =
  makedirs_ok :: bool
  is_opened :: bool
  frame_count :: int
  decoded :: "frame list"
  ffmpeg_ok :: bool
  remove_ok :: "string \<Rightarrow> bool"
  rmdir_ok :: bool

text \<open>
  A call of the progress callback returns a value that is tested for truth, or raises.
  The callback may depend on anything outside; within one run that makes it a function
  of the values it has been given so far (the current one last).
\<close>

datatype cb_result = Returns bool | Raises

type_synonym progress_callback = "(rat list \<Rightarrow> cb_result) option"

text \<open>\<^verbatim>\<open>os.makedirs(temp_dir, exist_ok=True)\<close>, when it succeeds.\<close>

definition makedirs :: "string \<Rightarrow> world \<Rightarrow> world" where
  "makedirs d w = (case dirs w d of None \<Rightarrow> w\<lparr>dirs := (dirs w)(d \<mapsto> [])\<rparr> | Some _ \<Rightarrow> w)"

text \<open>
  \<^verbatim>\<open>cv2.imwrite(os.path.join(temp_dir, name), processed, ...)\<close>: the file appears in the
  directory (once), and the write is recorded.
\<close>

definition imwrite :: "string \<Rightarrow> string \<Rightarrow> frame option \<Rightarrow> world \<Rightarrow> world" where
  "imwrite d name processed w =
     (case dirs w d of
        None \<Rightarrow> w
      | Some entries \<Rightarrow>
          w\<lparr>dirs := (dirs w)(d \<mapsto> (if name \<in> set entries then entries else entries @ [name])),
            written := written w @ [(path_join d name, processed)]\<rparr>)"

text \<open>How the sequential frame loop of \<^verbatim>\<open>process_video\<close> is left.\<close>

datatype loop_exit = Completed | Returned bool | Raised py_error

text \<open>
  The \<^verbatim>\<open>while True\<close> loop of \<^verbatim>\<open>process_video\<close>, over the frames still to be read:
  process the frame, write the still, count it, and report
  \<^verbatim>\<open>(current_frame / total_frames) * 100\<close> to the callback when there is one
  (\<open>ntotal\<close> is the local \<^verbatim>\<open>total_frames\<close>).
\<close>

fun frame_loop ::
  "inpaint_prim \<Rightarrow> video_processor \<Rightarrow> progress_callback \<Rightarrow> string \<Rightarrow> int \<Rightarrow>
     frame list \<Rightarrow> nat \<Rightarrow> world \<Rightarrow> loop_exit \<times> world" where
  "frame_loop inpaint self cb temp_dir ntotal [] current_frame w = (Completed, w)"
| "frame_loop inpaint self cb temp_dir ntotal (frame # rest) current_frame w =
     (case process_frame inpaint self (Some frame) of
        Inl e \<Rightarrow> (Raised e, w)
      | Inr processed \<Rightarrow>
          let w1 = imwrite temp_dir (frame_name current_frame) processed w;
              current_frame' = current_frame + 1
          in (case cb of
                None \<Rightarrow> frame_loop inpaint self cb temp_dir ntotal rest current_frame' w1
              | Some callback \<Rightarrow>
                  if ntotal = 0 then (Raised ZeroDivisionError, w1)
                  else
                    let progress = (of_nat current_frame' / of_int ntotal) * 100;
                        w2 = w1\<lparr>delivered := delivered w1 @ [progress]\<rparr>
                    in (case callback (delivered w2) of
                          Raises \<Rightarrow> (Raised CallbackError, w2)
                        | Returns continue \<Rightarrow>
                            if \<not> continue then (Returned False, w2)
                            else frame_loop inpaint self cb temp_dir ntotal rest
                                   current_frame' w2)))"

text \<open>The ffmpeg step: the invocation is recorded, and raises when ffmpeg fails.\<close>

definition run_ffmpeg :: "env \<Rightarrow> video_processor \<Rightarrow> string \<Rightarrow> string \<Rightarrow> world \<Rightarrow> loop_exit \<times> world"
where
  "run_ffmpeg e self temp_dir output_path w =
     (let frame_pattern = path_join temp_dir ''frame_%06d.jpg'';
          stream = \<lparr>inputs = [(frame_pattern, fps self)], output_file = output_path,
                    vcodec = ''libx264'', pix_fmt = ''yuv420p'', preset = ''veryfast'',
                    crf = 23, acodec = ''copy'', overwrite_output = True\<rparr>;
          w' = w\<lparr>ffmpeg_runs := ffmpeg_runs w @ [stream]\<rparr>
      in if ffmpeg_ok e then (Returned True, w') else (Raised FfmpegError, w'))"

text \<open>
  The inner \<^verbatim>\<open>finally\<close>: every listed file is removed, a failing removal is passed
  over, then \<^verbatim>\<open>os.rmdir\<close> is tried (it fails on a directory that is not empty) and its
  failure passed over too. \<^verbatim>\<open>os.listdir\<close> is outside any \<^verbatim>\<open>try\<close>: it raises when the
  directory is missing.
\<close>

definition cleanup :: "env \<Rightarrow> string \<Rightarrow> world \<Rightarrow> py_error option \<times> world" where
  "cleanup e temp_dir w =
     (case dirs w temp_dir of
        None \<Rightarrow> (Some OSError, w)
      | Some entries \<Rightarrow>
          let remaining = filter (\<lambda>file. \<not> remove_ok e (path_join temp_dir file)) entries
          in if remaining = [] \<and> rmdir_ok e
             then (None, w\<lparr>dirs := (dirs w)(temp_dir := None)\<rparr>)
             else (None, w\<lparr>dirs := (dirs w)(temp_dir \<mapsto> remaining)\<rparr>))"

text \<open>
  The inner \<^verbatim>\<open>try ... finally\<close>: the loop, then ffmpeg when the loop ran to its end,
  then the cleanup on every way out; an exception of the cleanup replaces the outcome.
\<close>

definition process_video_inner ::
  "inpaint_prim \<Rightarrow> env \<Rightarrow> video_processor \<Rightarrow> string \<Rightarrow> string \<Rightarrow> progress_callback \<Rightarrow>
     world \<Rightarrow> loop_exit \<times> world" where
  "process_video_inner inpaint e self temp_dir output_path cb w =
     (let (ex, w1) = frame_loop inpaint self cb temp_dir (frame_count e) (decoded e) 0 w;
          (ex', w2) = (case ex of
                         Completed \<Rightarrow> run_ffmpeg e self temp_dir output_path w1
                       | _ \<Rightarrow> (ex, w1));
          (err, w3) = cleanup e temp_dir w2
      in (case err of None \<Rightarrow> (ex', w3) | Some x \<Rightarrow> (Raised x, w3)))"

text \<open>
  \<^verbatim>\<open>VideoProcessor.process_video\<close>. The result is \<open>Inr b\<close> for a returned boolean and
  \<open>Inl\<close> for an exception that leaves the method: when \<^verbatim>\<open>os.makedirs\<close> raises, the
  handler returns False but the outer \<^verbatim>\<open>finally\<close> reads \<^verbatim>\<open>cap\<close> before it was
  assigned.
\<close>

definition process_video ::
  "inpaint_prim \<Rightarrow> env \<Rightarrow> video_processor \<Rightarrow> string \<Rightarrow> progress_callback \<Rightarrow> world \<Rightarrow>
     (py_error + bool) \<times> world" where
  "process_video inpaint e self output_path cb w =
     (if video_path self = None \<or> video_path self = Some [] \<or> watermark_region self = None
      then (Inr False, w)
      else
        let temp_dir = path_join (dirname output_path) ''temp_frames'' in
        if \<not> makedirs_ok e then (Inl UnboundLocalError, w)
        else
          let w0 = makedirs temp_dir w in
          if \<not> is_opened e then (Inr False, w0)
          else
            (case process_video_inner inpaint e self temp_dir output_path cb w0 of
               (Returned b, w') \<Rightarrow> (Inr b, w')
             | (Raised x, w') \<Rightarrow> (Inr False, w')
             | (Completed, w') \<Rightarrow> (Inr False, w')))"

section \<open>ui/main\_window.py: display and native coordinates\<close>

text \<open>
  A \<^verbatim>\<open>QRect(x, y, width, height)\<close>. In a condition PySide6 takes a QRect for false
  exactly when it is null (width and height both 0).
\<close>

type_synonym qrect = "int \<times> int \<times> int \<times> int"

definition qrect_is_null :: "qrect \<Rightarrow> bool" where
  "qrect_is_null r = (case r of (x, y, w, h) \<Rightarrow> w = 0 \<and> h = 0)"

text \<open>
  The state of an \<^verbatim>\<open>ImageLabel\<close> that the mapping reads: the selection, the size of the
  pixmap shown (none before an image is set), the size of the label, the scale factor and
  the size of the original image.
\<close>

record image_label =
  selection :: "qrect option"
  pixmap_size :: "(int \<times> int) option"
  label_size :: "int \<times> int"
  scale_factor :: rat
  original_size :: "int \<times> int"

text \<open>
  \<^verbatim>\<open>ImageLabel.scale_image\<close>: the scale factor becomes the smaller of the two ratios
  of label to image, and the size returned is the truncated scaled size.
\<close>

definition scale_image :: "image_label \<Rightarrow> int \<times> int \<Rightarrow> image_label \<times> (int \<times> int)" where
  "scale_image self image_size =
     (case label_size self of (lw, lh) \<Rightarrow>
      case image_size of (iw, ih) \<Rightarrow>
        let width_ratio = of_int lw / of_int iw;
            height_ratio = of_int lh / of_int ih;
            sf = min width_ratio height_ratio;
            new_size = (py_int (of_int iw * sf), py_int (of_int ih * sf))
        in (self\<lparr>scale_factor := sf\<rparr>, new_size))"

text \<open>
  \<^verbatim>\<open>ImageLabel.set_image\<close> on an image that opens, by its size: the original size is
  kept, the scaled image becomes the pixmap, and the selection is cleared.
\<close>

definition set_image :: "image_label \<Rightarrow> int \<times> int \<Rightarrow> image_label" where
  "set_image self image_size =
     (case scale_image (self\<lparr>original_size := image_size\<rparr>) image_size of
        (self', new_size) \<Rightarrow> self'\<lparr>pixmap_size := Some new_size, selection := None\<rparr>)"

text \<open>
  \<^verbatim>\<open>ImageLabel.get_pixmap_rect\<close>: the pixmap centred in the label. A pixmap with an
  empty size is null, and a null pixmap counts as absent.
\<close>

definition get_pixmap_rect :: "image_label \<Rightarrow> qrect option" where
  "get_pixmap_rect self =
     (case pixmap_size self of
        None \<Rightarrow> None
      | Some (pw, ph) \<Rightarrow>
          if pw \<le> 0 \<or> ph \<le> 0 then None
          else (case label_size self of (lw, lh) \<Rightarrow>
                  Some ((lw - pw) div 2, (lh - ph) div 2, pw, ph)))"

text \<open>
  The part of \<^verbatim>\<open>MainWindow.detect_watermark\<close> that shows a detected region: the native
  region becomes the selection, in display coordinates.
\<close>

definition detect_watermark :: "image_label \<Rightarrow> region option \<Rightarrow> image_label" where
  "detect_watermark label region =
     (case region of
        None \<Rightarrow> label
      | Some (x, y, w, h) \<Rightarrow>
          (case get_pixmap_rect label of
             None \<Rightarrow> label
           | Some (px, py, pw, ph) \<Rightarrow>
               if qrect_is_null (px, py, pw, ph) then label
               else
                 let scale_x = of_int pw / of_int (fst (original_size label));
                     scale_y = of_int ph / of_int (snd (original_size label));
                     display_x = py_int (of_int x * scale_x) + px;
                     display_y = py_int (of_int y * scale_y) + py;
                     display_w = py_int (of_int w * scale_x);
                     display_h = py_int (of_int h * scale_y)
                 in label\<lparr>selection := Some (display_x, display_y, display_w, display_h)\<rparr>))"

text \<open>
  \<^verbatim>\<open>ImageLabel.get_scaled_rect\<close>: the selection in the coordinates of the original
  image, clamped to it.
\<close>

definition get_scaled_rect :: "image_label \<Rightarrow> qrect option" where
  "get_scaled_rect self =
     (case selection self of
        None \<Rightarrow> None
      | Some (sx, sy, sw, sh) \<Rightarrow>
          if qrect_is_null (sx, sy, sw, sh) then None
          else
            (case get_pixmap_rect self of
               None \<Rightarrow> None
             | Some (px, py, pw, ph) \<Rightarrow>
                 if qrect_is_null (px, py, pw, ph) then None
                 else
                   let x = of_int (sx - px) / scale_factor self;
                       y = of_int (sy - py) / scale_factor self;
                       w = of_int sw / scale_factor self;
                       h = of_int sh / scale_factor self;
                       x' = max 0 (min x (of_int (fst (original_size self))));
                       y' = max 0 (min y (of_int (snd (original_size self))));
                       w' = min w (of_int (fst (original_size self)) - x');
                       h' = min h (of_int (snd (original_size self)) - y')
                   in Some (py_int x', py_int y', py_int w', py_int h')))"

text \<open>Two rectangles agree within one pixel in each of x, y, width and height.\<close>

definition within_one_pixel :: "qrect \<Rightarrow> qrect \<Rightarrow> bool" where
  "within_one_pixel r r' =
     (case r of (x, y, w, h) \<Rightarrow> case r' of (x', y', w', h') \<Rightarrow>
        \<bar>x - x'\<bar> \<le> 1 \<and> \<bar>y - y'\<bar> \<le> 1 \<and> \<bar>w - w'\<bar> \<le> 1 \<and> \<bar>h - h'\<bar> \<le> 1)"

text \<open>
  The invariant of a region in a frame of the given width and height:
  \<open>0 \<le> x\<close>, \<open>0 \<le> y\<close>, \<open>x + width \<le> frame width\<close>, \<open>y + height \<le> frame height\<close>.
\<close>

definition region_invariant :: "int \<Rightarrow> int \<Rightarrow> region \<Rightarrow> bool" where
  "region_invariant fw fh r =
     (case r of (x, y, w, h) \<Rightarrow> 0 \<le> x \<and> 0 \<le> y \<and> x + w \<le> fw \<and> y + h \<le> fh)"

subsection \<open>Names for the statements about a run\<close>

text \<open>The scratch directory of a run, and the progress value after \<open>k\<close> frames.\<close>

abbreviation temp_frames_dir :: "string \<Rightarrow> string" where
  "temp_frames_dir output_path \<equiv> path_join (dirname output_path) ''temp_frames''"

abbreviation progress_value :: "int \<Rightarrow> nat \<Rightarrow> rat" where
  "progress_value ntotal k \<equiv> (of_nat k / of_int ntotal) * 100"

section \<open>Sample data for concrete runs\<close>

text \<open>
  Two one-pixel frames, a primitive that returns the frame it is given, a primitive that
  always raises, a primitive that encodes the algorithm it was called with in the pixels
  it returns, a processor loaded with a video and a region, an outside in which everything
  succeeds on a two-frame video, and a world with no directory.
\<close>

definition frame_a :: frame where
  "frame_a = \<lparr>fheight = 1, fwidth = 1, pixels = [7]\<rparr>"

definition frame_b :: frame where
  "frame_b = \<lparr>fheight = 1, fwidth = 1, pixels = [8]\<rparr>"

definition keep_inpaint :: inpaint_prim where
  "keep_inpaint frame msk radius flag = Some frame"

definition failing_inpaint :: inpaint_prim where
  "failing_inpaint frame msk radius flag = None"

definition flag_inpaint :: inpaint_prim where
  "flag_inpaint frame msk radius flag =
     Some (frame\<lparr>pixels := [case flag of INPAINT_TELEA \<Rightarrow> 1 | INPAINT_NS \<Rightarrow> 2]\<rparr>)"

definition demo_processor :: video_processor where
  "demo_processor =
     \<lparr>watermark_region = Some (0, 0, 1, 1), inpaint_radius = 3, method_name = ''telea'',
      video_path = Some ''/videos/in.mp4'', total_frames = 2, fps = 30,
      vwidth = 1, vheight = 1\<rparr>"

definition demo_env :: env where
  "demo_env =
     \<lparr>makedirs_ok = True, is_opened = True, frame_count = 2, decoded = [frame_a, frame_b],
      ffmpeg_ok = True, remove_ok = (\<lambda>_. True), rmdir_ok = True\<rparr>"

definition fresh_world :: world where
  "fresh_world = \<lparr>dirs = Map.empty, written = [], delivered = [], ffmpeg_runs = []\<rparr>"

section \<open>Detection: area bounds\<close>

lemma valid_contours_bounds:
  "c \<in> set (valid_contours img contours) \<Longrightarrow>
     min_area img < contourArea c \<and> contourArea c < max_area img"
  by (simp add: valid_contours_def)

lemma valid_contours_empty_iff:
  "valid_contours img contours = [] \<longleftrightarrow>
     (\<forall>c \<in> set contours. \<not> (min_area img < contourArea c \<and> contourArea c < max_area img))"
  by (simp add: valid_contours_def filter_empty_conv)

lemma auto_detect_decodable:
  "read_image p = Some img \<Longrightarrow>
   (auto_detect_watermark read_image find_contours p = Inr None) =
     (valid_contours img (find_contours img) = [])"
  by (auto simp: auto_detect_watermark_def Let_def valid_contours_def)

lemma max_first_mem: "max_first b ps \<in> insert b (set ps)"
  by (induction ps arbitrary: b) (auto split: if_splits)

lemma auto_detect_region_from_candidate:
  assumes "read_image p = Some img"
    and "auto_detect_watermark read_image find_contours p = Inr (Some r)"
  shows "\<exists>c \<in> set (valid_contours img (find_contours img)). r = pad_region img (boundingRect c)"
proof -
  let ?valid = "valid_contours img (find_contours img)"
  let ?feat = "map (\<lambda>c. (c, score img c)) ?valid"
  from assms have ne: "?valid \<noteq> []"
    by (auto simp: auto_detect_watermark_def Let_def split: if_splits)
  show ?thesis
  proof (cases "length ?valid > 1")
    case True
    have "max_first (hd ?feat) (tl ?feat) \<in> insert (hd ?feat) (set (tl ?feat))"
      by (rule max_first_mem)
    also have "insert (hd ?feat) (set (tl ?feat)) = set ?feat"
      using ne by (cases ?feat) auto
    finally have "fst (max_first (hd ?feat) (tl ?feat)) \<in> set ?valid"
      by auto
    moreover from assms True ne
    have "r = pad_region img (boundingRect (fst (max_first (hd ?feat) (tl ?feat))))"
      by (auto simp: auto_detect_watermark_def Let_def split: if_splits)
    ultimately show ?thesis by blast
  next
    case False
    with assms ne have "r = pad_region img (boundingRect (hd ?valid))"
      by (auto simp: auto_detect_watermark_def Let_def split: if_splits)
    moreover from ne have "hd ?valid \<in> set ?valid" by simp
    ultimately show ?thesis by blast
  qed
qed

text \<open>
  C6. For a decodable frame, every contour the detector keeps as a candidate has an area
  strictly between 0.001 and 0.2 times the frame area (the area of the contour itself,
  before any padding of its rectangle); a region the detector returns is the padded
  rectangle of such a candidate; and when no contour of the frame is within these bounds
  the detector returns none.
\<close>

theorem detector_area_bounds:
  assumes "read_image p = Some img"
  shows "(\<forall>c \<in> set (valid_contours img (find_contours img)).
            of_nat (fheight img * fwidth img) * (1 / 1000) < contourArea c \<and>
            contourArea c < of_nat (fheight img * fwidth img) * (2 / 10)) \<and>
         (\<forall>r. auto_detect_watermark read_image find_contours p = Inr (Some r) \<longrightarrow>
            (\<exists>c \<in> set (valid_contours img (find_contours img)).
               r = pad_region img (boundingRect c))) \<and>
         ((\<forall>c \<in> set (find_contours img).
             \<not> (of_nat (fheight img * fwidth img) * (1 / 1000) < contourArea c \<and>
                contourArea c < of_nat (fheight img * fwidth img) * (2 / 10))) \<longrightarrow>
          auto_detect_watermark read_image find_contours p = Inr None)"
proof (intro conjI ballI impI allI)
  fix c
  assume "c \<in> set (valid_contours img (find_contours img))"
  from valid_contours_bounds [OF this]
  show "of_nat (fheight img * fwidth img) * (1 / 1000) < contourArea c"
    and "contourArea c < of_nat (fheight img * fwidth img) * (2 / 10)"
    by (simp_all add: min_area_def max_area_def)
next
  fix r
  assume "auto_detect_watermark read_image find_contours p = Inr (Some r)"
  with assms
  show "\<exists>c \<in> set (valid_contours img (find_contours img)). r = pad_region img (boundingRect c)"
    by (rule auto_detect_region_from_candidate)
next
  assume "\<forall>c \<in> set (find_contours img).
             \<not> (of_nat (fheight img * fwidth img) * (1 / 1000) < contourArea c \<and>
                contourArea c < of_nat (fheight img * fwidth img) * (2 / 10))"
  then have "valid_contours img (find_contours img) = []"
    by (simp add: valid_contours_empty_iff min_area_def max_area_def)
  with assms show "auto_detect_watermark read_image find_contours p = Inr None"
    by (simp add: auto_detect_decodable)
qed

theorem detector_area_bounds_witness:
  "valid_contours \<lparr>fheight = 100, fwidth = 100, pixels = []\<rparr>
       [\<lparr>contourArea = 400, boundingRect = (40, 40, 20, 20)\<rparr>,
        \<lparr>contourArea = 5, boundingRect = (1, 1, 3, 3)\<rparr>]
     = [\<lparr>contourArea = 400, boundingRect = (40, 40, 20, 20)\<rparr>] \<and>
   (10::rat) < 400 \<and> (400::rat) < 2000 \<and>
   auto_detect_watermark (\<lambda>_. Some \<lparr>fheight = 100, fwidth = 100, pixels = []\<rparr>)
       (\<lambda>_. [\<lparr>contourArea = 400, boundingRect = (40, 40, 20, 20)\<rparr>,
              \<lparr>contourArea = 5, boundingRect = (1, 1, 3, 3)\<rparr>]) ''a.png''
     = Inr (Some (35, 35, 30, 30)) \<and>
   auto_detect_watermark (\<lambda>_. Some \<lparr>fheight = 100, fwidth = 100, pixels = []\<rparr>)
       (\<lambda>_. [\<lparr>contourArea = 5, boundingRect = (1, 1, 3, 3)\<rparr>]) ''a.png'' = Inr None"
proof -
  let ?img = "\<lparr>fheight = 100, fwidth = 100, pixels = []\<rparr>"
  let ?c1 = "\<lparr>contourArea = 400, boundingRect = (40, 40, 20, 20)\<rparr>"
  let ?c2 = "\<lparr>contourArea = 5, boundingRect = (1, 1, 3, 3)\<rparr>"
  have valid: "valid_contours ?img [?c1, ?c2] = [?c1]"
    by (simp add: valid_contours_def min_area_def max_area_def)
  have found: "auto_detect_watermark (\<lambda>_. Some ?img) (\<lambda>_. [?c1, ?c2]) ''a.png''
      = Inr (Some (35, 35, 30, 30))"
    by (simp add: auto_detect_watermark_def Let_def valid pad_region_def)
  have none: "auto_detect_watermark (\<lambda>_. Some ?img) (\<lambda>_. [?c2]) ''a.png'' = Inr None"
    using detector_area_bounds [of "\<lambda>_. Some ?img" "''a.png''" ?img "\<lambda>_. [?c2]"]
    by simp
  from valid found none show ?thesis by simp
qed

section \<open>The video run: what the loop and the cleanup preserve\<close>

lemma process_frame_returns: "\<exists>r. process_frame inpaint self frame = Inr r"
  by (simp add: process_frame_def split: option.split sum.split)

lemma imwrite_delivered [simp]: "delivered (imwrite d name p w) = delivered w"
  by (simp add: imwrite_def split: option.split)

lemma imwrite_ffmpeg_runs [simp]: "ffmpeg_runs (imwrite d name p w) = ffmpeg_runs w"
  by (simp add: imwrite_def split: option.split)

lemma imwrite_dirs_Some: "dirs w d \<noteq> None \<Longrightarrow> dirs (imwrite d' name p w) d \<noteq> None"
  by (auto simp: imwrite_def split: option.split)

lemma imwrite_written: "dirs w d \<noteq> None \<Longrightarrow>
    written (imwrite d name p w) = written w @ [(path_join d name, p)]"
  by (auto simp: imwrite_def split: option.split)

lemma frame_loop_no_callback_delivered:
  "frame_loop inpaint self None d n frames cur w = (ex, w') \<Longrightarrow> delivered w' = delivered w"
proof (induction frames arbitrary: cur w)
  case Nil
  then show ?case by simp
next
  case (Cons frame rest)
  obtain r where r: "process_frame inpaint self (Some frame) = Inr r"
    using process_frame_returns by blast
  from Cons.prems r
  have "frame_loop inpaint self None d n rest (cur + 1) (imwrite d (frame_name cur) r w) = (ex, w')"
    by (simp add: Let_def)
  from Cons.IH [OF this] show ?case by simp
qed

lemma frame_loop_delivered:
  "frame_loop inpaint self (Some c) d n frames cur w = (ex, w') \<Longrightarrow>
   \<exists>m \<le> length frames.
     delivered w' = delivered w @ map (progress_value n) [Suc cur ..< Suc cur + m] \<and>
     (ex = Completed \<longrightarrow> m = length frames)"
proof (induction frames arbitrary: cur w)
  case Nil
  then show ?case by simp
next
  case (Cons frame rest)
  obtain r where r: "process_frame inpaint self (Some frame) = Inr r"
    using process_frame_returns by blast
  let ?w1 = "imwrite d (frame_name cur) r w"
  let ?w2 = "?w1\<lparr>delivered := delivered ?w1 @ [progress_value n (Suc cur)]\<rparr>"
  show ?case
  proof (cases "n = 0")
    case True
    with Cons.prems r have "ex = Raised ZeroDivisionError" and "w' = ?w1"
      by (simp_all add: Let_def)
    then show ?thesis by (intro exI [of _ 0]) simp
  next
    case n: False
    show ?thesis
    proof (cases "c (delivered ?w2)")
      case Raises
      with Cons.prems r n have "ex = Raised CallbackError" and "w' = ?w2"
        by (simp_all add: Let_def)
      then show ?thesis by (intro exI [of _ 1]) simp
    next
      case (Returns continue)
      show ?thesis
      proof (cases continue)
        case False
        with Cons.prems r n Returns have "ex = Returned False" and "w' = ?w2"
          by (simp_all add: Let_def)
        then show ?thesis by (intro exI [of _ 1]) simp
      next
        case True
        with Cons.prems r n Returns
        have "frame_loop inpaint self (Some c) d n rest (Suc cur) ?w2 = (ex, w')"
          by (simp add: Let_def)
        from Cons.IH [OF this] obtain m where m: "m \<le> length rest"
          "delivered w' = delivered ?w2 @ map (progress_value n) [Suc (Suc cur) ..< Suc (Suc cur) + m]"
          "ex = Completed \<longrightarrow> m = length rest"
          by blast
        have "[Suc cur ..< Suc cur + Suc m] = Suc cur # [Suc (Suc cur) ..< Suc (Suc cur) + m]"
          by (simp add: upt_rec)
        with m show ?thesis by (intro exI [of _ "Suc m"]) simp
      qed
    qed
  qed
qed

lemma frame_loop_Cons_cases:
  assumes "frame_loop inpaint self cb d n (frame # rest) cur w = (ex, w')"
  obtains (continue) r xs where
      "process_frame inpaint self (Some frame) = Inr r"
      "frame_loop inpaint self cb d n rest (Suc cur)
         ((imwrite d (frame_name cur) r w)\<lparr>delivered := xs\<rparr>) = (ex, w')"
  | (stop) r xs where
      "process_frame inpaint self (Some frame) = Inr r"
      "w' = (imwrite d (frame_name cur) r w)\<lparr>delivered := xs\<rparr>"
      "ex = Raised ZeroDivisionError \<or> ex = Raised CallbackError \<or> ex = Returned False"
proof -
  obtain r where r: "process_frame inpaint self (Some frame) = Inr r"
    using process_frame_returns by blast
  let ?w1 = "imwrite d (frame_name cur) r w"
  let ?w2 = "?w1\<lparr>delivered := delivered ?w1 @ [progress_value n (Suc cur)]\<rparr>"
  have same: "?w1\<lparr>delivered := delivered w\<rparr> = ?w1" by simp
  show thesis
  proof (cases cb)
    case None
    with assms r have "frame_loop inpaint self cb d n rest (Suc cur) ?w1 = (ex, w')"
      by (simp add: Let_def)
    then have "frame_loop inpaint self cb d n rest (Suc cur)
        (?w1\<lparr>delivered := delivered w\<rparr>) = (ex, w')" by (simp only: same)
    with r show thesis by (rule continue)
  next
    case (Some c)
    show thesis
    proof (cases "n = 0")
      case True
      with assms r Some have "ex = Raised ZeroDivisionError" and "w' = ?w1"
        by (simp_all add: Let_def)
      then have "w' = ?w1\<lparr>delivered := delivered w\<rparr>" by (simp only: same)
      with r show thesis using \<open>ex = Raised ZeroDivisionError\<close> by (intro stop) simp_all
    next
      case n: False
      show thesis
      proof (cases "c (delivered ?w2)")
        case Raises
        with assms r Some n have "ex = Raised CallbackError" and "w' = ?w2"
          by (simp_all add: Let_def)
        with r show thesis by (intro stop) simp_all
      next
        case (Returns continue')
        show thesis
        proof (cases continue')
          case False
          with assms r Some n Returns have "ex = Returned False" and "w' = ?w2"
            by (simp_all add: Let_def)
          with r show thesis by (intro stop) simp_all
        next
          case True
          with assms r Some n Returns
          have "frame_loop inpaint self cb d n rest (Suc cur) ?w2 = (ex, w')"
            by (simp add: Let_def)
          with r show thesis by (rule continue)
        qed
      qed
    qed
  qed
qed

lemma frame_loop_exit:
  "frame_loop inpaint self cb d n frames cur w = (ex, w') \<Longrightarrow> ex \<noteq> Returned True"
proof (induction frames arbitrary: cur w)
  case Nil
  then show ?case by auto
next
  case (Cons frame rest)
  from Cons.prems show ?case
  proof (cases rule: frame_loop_Cons_cases)
    case (continue r xs)
    then show ?thesis using Cons.IH by blast
  next
    case (stop r xs)
    then show ?thesis by auto
  qed
qed

lemma frame_loop_dirs:
  "frame_loop inpaint self cb d n frames cur w = (ex, w') \<Longrightarrow> dirs w d' \<noteq> None \<Longrightarrow>
     dirs w' d' \<noteq> None"
proof (induction frames arbitrary: cur w)
  case Nil
  then show ?case by auto
next
  case (Cons frame rest)
  have d1: "dirs ((imwrite d (frame_name cur) r w)\<lparr>delivered := xs\<rparr>) d' \<noteq> None" for r xs
    using imwrite_dirs_Some [OF Cons.prems(2)] by simp
  from Cons.prems(1) show ?case
  proof (cases rule: frame_loop_Cons_cases)
    case (continue r xs)
    from Cons.IH [OF continue(2) d1] show ?thesis .
  next
    case (stop r xs)
    with d1 show ?thesis by simp
  qed
qed


lemma sorted_progress:
  assumes "0 < n"
  shows "sorted (map (progress_value n) [a ..< b])"
proof -
  have "progress_value n i \<le> progress_value n j" if "i \<le> j" for i j
    using that assms by (simp add: divide_right_mono)
  then have "sorted_wrt (\<lambda>i j. progress_value n i \<le> progress_value n j) [a ..< b]"
    by (intro sorted_wrt_mono_rel [OF _ sorted_upt]) blast
  then show ?thesis
    by (simp only: sorted_wrt_map)
qed

lemma run_ffmpeg_delivered [simp]:
  "delivered (snd (run_ffmpeg e self d out w)) = delivered w"
  by (simp add: run_ffmpeg_def Let_def)

lemma cleanup_delivered [simp]: "delivered (snd (cleanup e d w)) = delivered w"
  by (simp add: cleanup_def Let_def split: option.split)

lemma cleanup_written [simp]: "written (snd (cleanup e d w)) = written w"
  by (simp add: cleanup_def Let_def split: option.split)

lemma run_ffmpeg_written [simp]: "written (snd (run_ffmpeg e self d out w)) = written w"
  by (simp add: run_ffmpeg_def Let_def)

lemma run_ffmpeg_dirs [simp]: "dirs (snd (run_ffmpeg e self d out w)) = dirs w"
  by (simp add: run_ffmpeg_def Let_def)

lemma cleanup_ok: "dirs w d \<noteq> None \<Longrightarrow> fst (cleanup e d w) = None"
  by (auto simp: cleanup_def Let_def)

lemma makedirs_dirs: "dirs (makedirs d w) d \<noteq> None"
  by (simp add: makedirs_def split: option.split)

lemma makedirs_fields [simp]:
  "delivered (makedirs d w) = delivered w" "written (makedirs d w) = written w"
  "ffmpeg_runs (makedirs d w) = ffmpeg_runs w"
  by (simp_all add: makedirs_def split: option.split)

text \<open>What process_video does once the capture has opened, in terms of the loop.\<close>

lemma process_video_opened:
  assumes cfg: "video_path self \<noteq> None" "video_path self \<noteq> Some []" "watermark_region self \<noteq> None"
    and env: "makedirs_ok e" "is_opened e"
    and loop: "frame_loop inpaint self cb (temp_frames_dir output_path) (frame_count e) (decoded e) 0
                 (makedirs (temp_frames_dir output_path) w) = (ex, w1)"
  shows "fst (process_video inpaint e self output_path cb w) =
           Inr (ex = Completed \<and> ffmpeg_ok e)"
    and "delivered (snd (process_video inpaint e self output_path cb w)) = delivered w1"
    and "written (snd (process_video inpaint e self output_path cb w)) = written w1"
proof -
  let ?d = "temp_frames_dir output_path"
  have d1: "dirs w1 ?d \<noteq> None"
    using frame_loop_dirs [OF loop makedirs_dirs] .
  have nt: "ex \<noteq> Returned True" using frame_loop_exit [OF loop] .
  obtain ex2 w2 where r2: "(case ex of Completed \<Rightarrow> run_ffmpeg e self ?d output_path w1
      | _ \<Rightarrow> (ex, w1)) = (ex2, w2)" by (cases "(case ex of Completed \<Rightarrow> run_ffmpeg e self ?d output_path w1
      | _ \<Rightarrow> (ex, w1))") auto
  have w2: "dirs w2 = dirs w1" "delivered w2 = delivered w1" "written w2 = written w1"
    using r2 by (auto split: loop_exit.splits if_splits simp: run_ffmpeg_def Let_def)
  have ex2: "ex2 = (if ex = Completed then (if ffmpeg_ok e then Returned True else Raised FfmpegError) else ex)"
    using r2 by (auto split: loop_exit.splits if_splits simp: run_ffmpeg_def Let_def)
  obtain err w3 where c3: "cleanup e ?d w2 = (err, w3)" by (cases "cleanup e ?d w2") auto
  have err: "err = None" using cleanup_ok [of w2 ?d e] d1 w2 c3 by simp
  have w3: "delivered w3 = delivered w1" "written w3 = written w1"
    using cleanup_delivered [of e ?d w2] cleanup_written [of e ?d w2] c3 w2 by simp_all
  have inner: "process_video_inner inpaint e self ?d output_path cb (makedirs ?d w) = (ex2, w3)"
    using loop r2 c3 err by (simp add: process_video_inner_def)
  have pv: "process_video inpaint e self output_path cb w =
      (case ex2 of Returned b \<Rightarrow> (Inr b, w3) | _ \<Rightarrow> (Inr False, w3))"
    using cfg env inner by (cases ex2) (auto simp: process_video_def Let_def)
  show "fst (process_video inpaint e self output_path cb w) = Inr (ex = Completed \<and> ffmpeg_ok e)"
    using pv ex2 nt by (cases ex) (auto split: loop_exit.splits)
  show "delivered (snd (process_video inpaint e self output_path cb w)) = delivered w1"
    using pv w3 by (auto split: loop_exit.splits)
  show "written (snd (process_video inpaint e self output_path cb w)) = written w1"
    using pv w3 by (auto split: loop_exit.splits)
qed

lemma process_video_not_opened:
  assumes "\<not> (video_path self \<noteq> None \<and> video_path self \<noteq> Some [] \<and> watermark_region self \<noteq> None \<and>
      makedirs_ok e \<and> is_opened e)"
  shows "fst (process_video inpaint e self output_path cb w) \<noteq> Inr True"
    and "delivered (snd (process_video inpaint e self output_path cb w)) = delivered w"
    and "written (snd (process_video inpaint e self output_path cb w)) = written w"
  using assms by (auto simp: process_video_def Let_def)

lemma cleanup_removes:
  "dirs w d \<noteq> None \<Longrightarrow> \<forall>p. remove_ok e p \<Longrightarrow> rmdir_ok e \<Longrightarrow> dirs (snd (cleanup e d w)) d = None"
  by (auto simp: cleanup_def Let_def)

lemma process_video_delivered:
  "\<exists>m \<le> length (decoded e).
     delivered (snd (process_video inpaint e self output_path cb w)) =
       delivered w @ map (progress_value (frame_count e)) [1 ..< 1 + m] \<and>
     (fst (process_video inpaint e self output_path cb w) = Inr True \<and> cb \<noteq> None \<longrightarrow>
        m = length (decoded e))"
proof (cases "video_path self \<noteq> None \<and> video_path self \<noteq> Some [] \<and>
    watermark_region self \<noteq> None \<and> makedirs_ok e \<and> is_opened e")
  case False
  from process_video_not_opened [OF this]
  show ?thesis by (intro exI [of _ 0]) simp
next
  case True
  let ?d = "temp_frames_dir output_path"
  obtain ex w1 where loop: "frame_loop inpaint self cb ?d (frame_count e) (decoded e) 0
      (makedirs ?d w) = (ex, w1)"
    by (cases "frame_loop inpaint self cb ?d (frame_count e) (decoded e) 0 (makedirs ?d w)") auto
  from True have cfg: "video_path self \<noteq> None" "video_path self \<noteq> Some []"
      "watermark_region self \<noteq> None" and env: "makedirs_ok e" "is_opened e"
    by simp_all
  note pv = process_video_opened [OF cfg env loop]
  show ?thesis
  proof (cases cb)
    case None
    with loop have "delivered w1 = delivered w"
      using frame_loop_no_callback_delivered [of inpaint self ?d "frame_count e" "decoded e" 0
          "makedirs ?d w" ex w1] by simp
    with pv(2) None show ?thesis by (intro exI [of _ 0]) simp
  next
    case (Some c)
    with loop obtain m where m: "m \<le> length (decoded e)"
      "delivered w1 = delivered (makedirs ?d w) @
         map (progress_value (frame_count e)) [Suc 0 ..< Suc 0 + m]"
      "ex = Completed \<longrightarrow> m = length (decoded e)"
      using frame_loop_delivered [of inpaint self c ?d "frame_count e" "decoded e" 0
          "makedirs ?d w" ex w1] by blast
    with pv(1,2) show ?thesis by (intro exI [of _ m]) simp
  qed
qed

section \<open>Concrete runs\<close>

lemma demo_temp_dir: "temp_frames_dir ''/out/clean.mp4'' = ''/out/temp_frames''"
  by (simp add: path_join_def dirname_def)

lemma frame_name_0: "frame_name 0 = ''frame_000000.jpg''"
  by (simp add: frame_name_def digits.simps eval_nat_numeral)

lemma frame_name_1: "frame_name (Suc 0) = ''frame_000001.jpg''"
  by (simp add: frame_name_def digits.simps eval_nat_numeral)

lemma frame_name_2: "frame_name (Suc (Suc 0)) = ''frame_000002.jpg''"
  by (simp add: frame_name_def digits.simps eval_nat_numeral)

lemma demo_join_frame:
  "path_join ''/out/temp_frames'' (frame_name n) = ''/out/temp_frames/'' @ frame_name n"
  by (simp add: path_join_def frame_name_def)

lemma demo_join_pattern:
  "path_join ''/out/temp_frames'' ''frame_%06d.jpg'' = ''/out/temp_frames/frame_%06d.jpg''"
  by (simp add: path_join_def)

lemma keep_process_frame:
  "process_frame keep_inpaint demo_processor (Some f) = Inr (Some f)"
  by (simp add: process_frame_def process_frame_try_def demo_processor_def keep_inpaint_def)

lemma demo_config:
  "video_path demo_processor = Some ''/videos/in.mp4''" "fps demo_processor = 30"
  "watermark_region demo_processor = Some (0, 0, 1, 1)"
  by (simp_all add: demo_processor_def)

lemmas demo_run =
  process_video_def process_video_inner_def demo_temp_dir keep_process_frame demo_join_frame
  demo_join_pattern frame_name_0 frame_name_1 frame_name_2 makedirs_def imwrite_def
  run_ffmpeg_def cleanup_def demo_env_def fresh_world_def demo_config Let_def

lemma demo_run_succeeds:
  "fst (process_video keep_inpaint demo_env demo_processor ''/out/clean.mp4'' cb fresh_world)
     = Inr (cb = None \<or> (\<exists>c. cb = Some c \<and> c [50] = Returns True \<and> c [50, 100] = Returns True))"
  by (cases cb) (auto simp: demo_run split: cb_result.splits)

section \<open>The video run: progress values\<close>

text \<open>
  C8 (as amended). In a run whose reported frame count is positive, the progress values
  delivered to the callback are non-decreasing; when no more frames are decoded than the
  reported count, each value lies between 0 and 100; and on a successful run with a callback
  in which exactly the reported number of frames was decoded, values were delivered and the
  last one is 100.
\<close>

theorem progress_values_under_accurate_frame_count:
  assumes n: "0 < frame_count e" and fresh: "delivered w = []"
  shows "sorted (delivered (snd (process_video inpaint e self output_path cb w))) \<and>
     (int (length (decoded e)) \<le> frame_count e \<longrightarrow>
        (\<forall>v \<in> set (delivered (snd (process_video inpaint e self output_path cb w))).
           0 \<le> v \<and> v \<le> 100)) \<and>
     (fst (process_video inpaint e self output_path cb w) = Inr True \<and> cb \<noteq> None \<and>
      int (length (decoded e)) = frame_count e \<longrightarrow>
        delivered (snd (process_video inpaint e self output_path cb w)) \<noteq> [] \<and>
        last (delivered (snd (process_video inpaint e self output_path cb w))) = 100)"
proof -
  let ?del = "delivered (snd (process_video inpaint e self output_path cb w))"
  let ?n = "frame_count e"
  obtain m where m: "m \<le> length (decoded e)"
      "?del = delivered w @ map (progress_value ?n) [1 ..< 1 + m]"
      "fst (process_video inpaint e self output_path cb w) = Inr True \<and> cb \<noteq> None \<longrightarrow>
         m = length (decoded e)"
    using process_video_delivered by blast
  from m(2) fresh have del: "?del = map (progress_value ?n) [1 ..< 1 + m]" by simp
  have nr: "(0::rat) < of_int ?n" using n by simp
  have s: "sorted ?del" unfolding del using n by (rule sorted_progress)
  have b: "\<forall>v \<in> set ?del. 0 \<le> v \<and> v \<le> 100" if le: "int (length (decoded e)) \<le> ?n"
  proof
    fix v assume "v \<in> set ?del"
    then obtain k where k: "1 \<le> k" "k \<le> m" "v = progress_value ?n k"
      unfolding del by auto
    from k(2) m(1) le have "int k \<le> ?n" by linarith
    then have "(of_nat k :: rat) \<le> of_int ?n"
      by (metis of_int_le_iff of_int_of_nat_eq)
    then have h1: "(of_nat k :: rat) / of_int ?n \<le> 1"
      using nr by (simp add: pos_divide_le_eq)
    have h0: "(0::rat) \<le> of_nat k / of_int ?n" using nr by simp
    have aux: "0 \<le> q * 100 \<and> q * 100 \<le> 100" if "0 \<le> q" "q \<le> 1" for q :: rat
      using that by simp
    from aux [OF h0 h1] show "0 \<le> v \<and> v \<le> 100" unfolding k(3) .
  qed
  have l: "?del \<noteq> [] \<and> last ?del = 100"
    if ok: "fst (process_video inpaint e self output_path cb w) = Inr True \<and> cb \<noteq> None \<and>
      int (length (decoded e)) = ?n"
  proof -
    from ok m(3) have mm: "m = length (decoded e)" by simp
    with ok have mn: "int m = ?n" by simp
    with n have m0: "0 < m" by linarith
    have ne: "[1 ..< 1 + m] \<noteq> []" using m0 by simp
    have "(of_nat m :: rat) = of_int ?n" using mn by (metis of_int_of_nat_eq)
    then have p: "progress_value ?n m = 100" using nr by simp
    have "last (map (progress_value ?n) [1 ..< 1 + m]) = progress_value ?n (last [1 ..< 1 + m])"
      using ne by (rule last_map)
    also have "last [1 ..< 1 + m] = m" using m0 by simp
    finally have "last (map (progress_value ?n) [1 ..< 1 + m]) = 100" using p by simp
    with ne show ?thesis unfolding del by simp
  qed
  from s b l show ?thesis by blast
qed

text \<open>
  A run on a video whose reported frame count (2) equals the number of frames decoded,
  with a callback that always continues.
\<close>

theorem progress_values_under_accurate_frame_count_witness:
  "0 < frame_count demo_env \<and> delivered fresh_world = [] \<and>
   int (length (decoded demo_env)) = frame_count demo_env \<and>
   fst (process_video keep_inpaint demo_env demo_processor ''/out/clean.mp4''
          (Some (\<lambda>_. Returns True)) fresh_world) = Inr True \<and>
   sorted (delivered (snd (process_video keep_inpaint demo_env demo_processor ''/out/clean.mp4''
          (Some (\<lambda>_. Returns True)) fresh_world))) \<and>
   delivered (snd (process_video keep_inpaint demo_env demo_processor ''/out/clean.mp4''
          (Some (\<lambda>_. Returns True)) fresh_world)) \<noteq> [] \<and>
   last (delivered (snd (process_video keep_inpaint demo_env demo_processor ''/out/clean.mp4''
          (Some (\<lambda>_. Returns True)) fresh_world))) = 100"
proof -
  have h1: "0 < frame_count demo_env" by (simp add: demo_env_def)
  have h2: "delivered fresh_world = []" by (simp add: fresh_world_def)
  have h3: "int (length (decoded demo_env)) = frame_count demo_env" by (simp add: demo_env_def)
  have h4: "fst (process_video keep_inpaint demo_env demo_processor ''/out/clean.mp4''
          (Some (\<lambda>_. Returns True)) fresh_world) = Inr True"
    by (simp add: demo_run_succeeds)
  from progress_values_under_accurate_frame_count [OF h1 h2, of keep_inpaint demo_processor
      "''/out/clean.mp4''" "Some (\<lambda>_. Returns True)"] h1 h2 h3 h4
  show ?thesis by simp
qed

text \<open>
  The claim as stated fails when the container reports fewer frames than are decoded:
  with a reported count of 2 and three frames read, the run succeeds and the values
  delivered are 50, 100 and 150.
\<close>

theorem progress_exceeds_100_counterexample:
  "frame_count (demo_env\<lparr>decoded := [frame_a, frame_b, frame_a]\<rparr>) = 2 \<and>
   fst (process_video keep_inpaint (demo_env\<lparr>decoded := [frame_a, frame_b, frame_a]\<rparr>)
          demo_processor ''/out/clean.mp4'' (Some (\<lambda>_. Returns True)) fresh_world) = Inr True \<and>
   delivered (snd (process_video keep_inpaint (demo_env\<lparr>decoded := [frame_a, frame_b, frame_a]\<rparr>)
          demo_processor ''/out/clean.mp4'' (Some (\<lambda>_. Returns True)) fresh_world))
     = [50, 100, 150] \<and>
   \<not> (150::rat) \<le> 100"
  by (simp add: demo_run)

section \<open>The video run: the returned result\<close>




section \<open>The video run: the scratch directory\<close>

text \<open>
  Once the capture has opened, the inner \<^verbatim>\<open>finally\<close> runs on every way out: when every
  removal succeeds, the scratch directory is gone after the run, however the run ended.
\<close>

lemma process_video_removes_scratch_dir:
  assumes cfg: "video_path self \<noteq> None" "video_path self \<noteq> Some []" "watermark_region self \<noteq> None"
    and env: "makedirs_ok e" "is_opened e"
    and del: "\<forall>p. remove_ok e p" "rmdir_ok e"
  shows "dirs (snd (process_video inpaint e self output_path cb w)) (temp_frames_dir output_path)
     = None"
proof -
  let ?d = "temp_frames_dir output_path"
  obtain ex w1 where loop: "frame_loop inpaint self cb ?d (frame_count e) (decoded e) 0
      (makedirs ?d w) = (ex, w1)"
    by (cases "frame_loop inpaint self cb ?d (frame_count e) (decoded e) 0 (makedirs ?d w)") auto
  have d1: "dirs w1 ?d \<noteq> None"
    using frame_loop_dirs [OF loop makedirs_dirs] .
  obtain ex2 w2 where r2: "(case ex of Completed \<Rightarrow> run_ffmpeg e self ?d output_path w1
      | _ \<Rightarrow> (ex, w1)) = (ex2, w2)"
    by (cases "(case ex of Completed \<Rightarrow> run_ffmpeg e self ?d output_path w1 | _ \<Rightarrow> (ex, w1))") auto
  have w2: "dirs w2 = dirs w1"
    using r2 by (auto split: loop_exit.splits if_splits simp: run_ffmpeg_def Let_def)
  obtain err w3 where c3: "cleanup e ?d w2 = (err, w3)" by (cases "cleanup e ?d w2") auto
  have "dirs (snd (cleanup e ?d w2)) ?d = None"
    using d1 w2 del by (intro cleanup_removes) simp_all
  with c3 have w3: "dirs w3 ?d = None" by simp
  have err: "err = None" using cleanup_ok [of w2 ?d e] d1 w2 c3 by simp
  have inner: "process_video_inner inpaint e self ?d output_path cb (makedirs ?d w) = (ex2, w3)"
    using loop r2 c3 err by (simp add: process_video_inner_def)
  have "snd (process_video inpaint e self output_path cb w) = w3"
    using cfg env inner by (cases ex2) (auto simp: process_video_def Let_def)
  with w3 show ?thesis by simp
qed

text \<open>
  C3. After any video run the scratch directory created for it no longer exists. The code
  breaks this when the capture does not open: \<^verbatim>\<open>return False\<close> after
  \<^verbatim>\<open>cap.isOpened()\<close> leaves the outer \<^verbatim>\<open>try\<close> before the inner one, whose
  \<^verbatim>\<open>finally\<close> holds the cleanup, is entered. On a world without the directory, such a
  run returns False and the directory it created is still there.
\<close>

theorem scratch_dir_left_when_capture_fails:
  "dirs fresh_world ''/out/temp_frames'' = None \<and>
   fst (process_video keep_inpaint (demo_env\<lparr>is_opened := False\<rparr>) demo_processor
          ''/out/clean.mp4'' None fresh_world) = Inr False \<and>
   dirs (snd (process_video keep_inpaint (demo_env\<lparr>is_opened := False\<rparr>) demo_processor
          ''/out/clean.mp4'' None fresh_world)) ''/out/temp_frames'' = Some []"
  by (simp add: demo_run)

section \<open>The video run: the ffmpeg invocation\<close>

text \<open>
  C2. The muxing step puts the original audio of the source video into the output. The
  code asks for \<^verbatim>\<open>acodec='copy'\<close>, but the only input stream it gives ffmpeg is the
  pattern of the stills: on a successful run of the sample video the invocation reads
  \<^verbatim>\<open>/out/temp_frames/frame_%06d.jpg\<close> and nothing else, so the source
  \<^verbatim>\<open>/videos/in.mp4\<close>, the only file with an audio stream, is not among its inputs.
\<close>

theorem mux_reads_only_the_stills:
  "fst (process_video keep_inpaint demo_env demo_processor ''/out/clean.mp4'' None fresh_world)
     = Inr True \<and>
   map inputs (ffmpeg_runs (snd (process_video keep_inpaint demo_env demo_processor
      ''/out/clean.mp4'' None fresh_world))) = [[(''/out/temp_frames/frame_%06d.jpg'', 30)]] \<and>
   map acodec (ffmpeg_runs (snd (process_video keep_inpaint demo_env demo_processor
      ''/out/clean.mp4'' None fresh_world))) = [''copy''] \<and>
   video_path demo_processor = Some ''/videos/in.mp4''"
  by (simp add: demo_run)

section \<open>Detection: an image that cannot be decoded\<close>

text \<open>
  C7 (as amended). When the source image cannot be decoded, auto_detect_watermark raises
  ValueError. When it can, the detector returns (it does not raise), and what it returns
  is none exactly when no contour is within the area bounds.
\<close>

theorem auto_detect_raises_on_undecodable:
  "(read_image p = None \<longrightarrow>
      auto_detect_watermark read_image find_contours p = Inl ValueError) \<and>
   (\<forall>img. read_image p = Some img \<longrightarrow>
      (\<exists>r. auto_detect_watermark read_image find_contours p = Inr r \<and>
           (r = None \<longleftrightarrow> valid_contours img (find_contours img) = [])))"
proof (intro conjI allI impI)
  assume "read_image p = None"
  then show "auto_detect_watermark read_image find_contours p = Inl ValueError"
    by (simp add: auto_detect_watermark_def)
next
  fix img
  assume img: "read_image p = Some img"
  then have "\<exists>r. auto_detect_watermark read_image find_contours p = Inr r"
    by (simp add: auto_detect_watermark_def Let_def)
  then obtain r where r: "auto_detect_watermark read_image find_contours p = Inr r" ..
  with img auto_detect_decodable [of read_image p img find_contours]
  show "\<exists>r. auto_detect_watermark read_image find_contours p = Inr r \<and>
           (r = None \<longleftrightarrow> valid_contours img (find_contours img) = [])"
    by auto
qed

text \<open>An undecodable path raises, a decodable image without contours gives none.\<close>

theorem auto_detect_raises_on_undecodable_witness:
  "auto_detect_watermark (\<lambda>p. if p = ''ok.png'' then Some frame_a else None) (\<lambda>_. [])
      ''broken.png'' = Inl ValueError \<and>
   auto_detect_watermark (\<lambda>p. if p = ''ok.png'' then Some frame_a else None) (\<lambda>_. [])
      ''ok.png'' = Inr None"
  using auto_detect_raises_on_undecodable
      [of "\<lambda>p. if p = ''ok.png'' then Some frame_a else None" "''broken.png''" "\<lambda>_. []"]
    auto_detect_raises_on_undecodable
      [of "\<lambda>p. if p = ''ok.png'' then Some frame_a else None" "''ok.png''" "\<lambda>_. []"]
  by (simp add: valid_contours_def)

text \<open>The claim as stated fails: on an undecodable path the detector raises.\<close>

theorem auto_detect_raises_counterexample:
  "auto_detect_watermark (\<lambda>_. None) (\<lambda>_. []) ''broken.png'' = Inl ValueError \<and>
   auto_detect_watermark (\<lambda>_. None) (\<lambda>_. []) ''broken.png'' \<noteq> Inr None"
  by (simp add: auto_detect_watermark_def)

section \<open>Setting the region\<close>

lemma py_int_of_int [simp]: "py_int (of_int k) = k"
  by (simp add: py_int_def)

text \<open>
  C9 (as amended). set_watermark_region, of the image processor and of the video
  processor, stores exactly the \<open>(x, y, width, height)\<close> it is given (the video processor
  after \<^verbatim>\<open>int(...)\<close>, the identity on integers): nothing is clamped, and no frame is
  consulted. So the stored region has the region invariant for a frame exactly when the
  arguments already have it.
\<close>

theorem set_watermark_region_stores_arguments:
  "watermark_region (set_watermark_region self x y width height) = Some (x, y, width, height) \<and>
   watermark_region (video_set_watermark_region vself (of_int x) (of_int y) (of_int width)
      (of_int height)) = Some (x, y, width, height) \<and>
   (case watermark_region (set_watermark_region self x y width height) of
      None \<Rightarrow> False
    | Some r \<Rightarrow> region_invariant fw fh r) =
     (0 \<le> x \<and> 0 \<le> y \<and> x + width \<le> fw \<and> y + height \<le> fh)"
  by (simp add: set_watermark_region_def video_set_watermark_region_def region_invariant_def)

text \<open>
  The claim as stated fails: a region that starts at \<open>(-5, -5)\<close> and is 1000 wide and high
  is stored as it is, and does not fit a 100 by 100 frame.
\<close>

theorem set_watermark_region_not_clamped_counterexample:
  "watermark_region (set_watermark_region image_processor_init (-5) (-5) 1000 1000)
     = Some (-5, -5, 1000, 1000) \<and>
   watermark_region (video_set_watermark_region video_processor_init (-5) (-5) 1000 1000)
     = Some (-5, -5, 1000, 1000) \<and>
   \<not> region_invariant 100 100 (-5, -5, 1000, 1000)"
  by (simp add: set_watermark_region_def video_set_watermark_region_def region_invariant_def
      py_int_def)

section \<open>Removal from a still image\<close>

text \<open>The method configured has no effect on remove_watermark.\<close>

lemma remove_watermark_ignores_method:
  "remove_watermark inpaint read_image save_ok (self\<lparr>method_name := m\<rparr>) input_path output_path =
   remove_watermark inpaint read_image save_ok self input_path output_path"
  by (simp add: remove_watermark_def Let_def split: option.split)

text \<open>
  C1. remove_watermark reconstructs with the configured algorithm, as preview_removal
  does on the same image, region and configuration. The code breaks this: remove_watermark
  passes \<^verbatim>\<open>cv2.INPAINT_TELEA\<close> whatever \<^verbatim>\<open>self.method\<close> is. With the method set to
  \<^verbatim>\<open>'ns'\<close> and a primitive that records the algorithm it is called with, the file
  saved by remove_watermark is the Telea result (pixel 1), the preview is the Navier-Stokes
  result (pixel 2), and the saved file equals the preview under \<^verbatim>\<open>'telea'\<close>.
\<close>

theorem remove_watermark_uses_telea_under_ns:
  "remove_watermark flag_inpaint (\<lambda>_. Some frame_a) (\<lambda>_. True)
      \<lparr>watermark_region = Some (0, 0, 1, 1), inpaint_radius = 3, method_name = ''ns''\<rparr>
      ''in.png'' ''out.png'' = Inr (''out.png'', frame_a\<lparr>pixels := [1]\<rparr>) \<and>
   preview_removal flag_inpaint (\<lambda>_. Some frame_a)
      \<lparr>watermark_region = Some (0, 0, 1, 1), inpaint_radius = 3, method_name = ''ns''\<rparr>
      ''in.png'' = Inr (frame_a\<lparr>pixels := [2]\<rparr>) \<and>
   preview_removal flag_inpaint (\<lambda>_. Some frame_a)
      \<lparr>watermark_region = Some (0, 0, 1, 1), inpaint_radius = 3, method_name = ''telea''\<rparr>
      ''in.png'' = Inr (frame_a\<lparr>pixels := [1]\<rparr>)"
  by (simp add: remove_watermark_def preview_removal_def flag_inpaint_def Let_def)

section \<open>Processing one frame\<close>

lemma frame_loop_no_callback_completes:
  "fst (frame_loop inpaint self None d n frames cur w) = Completed"
proof (induction frames arbitrary: cur w)
  case Nil
  then show ?case by simp
next
  case (Cons frame rest)
  obtain r where r: "process_frame inpaint self (Some frame) = Inr r"
    using process_frame_returns by blast
  with Cons.IH show ?case by (simp add: Let_def)
qed

text \<open>
  C10. process_frame never raises. When the frame is None, when no region is set, or when
  the reconstruction raises, it returns the frame it was given. So a failing
  reconstruction does not end the frame loop of a video run (without a callback the loop
  always runs to the end of the stream), and the still written for the affected frame is
  the frame as decoded.
\<close>

theorem process_frame_never_raises:
  "(\<exists>r. process_frame inpaint self frame = Inr r \<and>
        ((frame = None \<or> watermark_region self = None \<or>
          (\<exists>f reg err. frame = Some f \<and> watermark_region self = Some reg \<and>
             process_frame_try inpaint self f reg = Inl err)) \<longrightarrow> r = frame)) \<and>
   fst (frame_loop inpaint self None d n frames cur w) = Completed \<and>
   (\<forall>f reg err. watermark_region self = Some reg \<and>
        process_frame_try inpaint self f reg = Inl err \<and> dirs w d \<noteq> None \<longrightarrow>
      written (snd (frame_loop inpaint self None d n [f] cur w)) =
        written w @ [(path_join d (frame_name cur), Some f)])"
proof (intro conjI allI impI)
  show "\<exists>r. process_frame inpaint self frame = Inr r \<and>
        ((frame = None \<or> watermark_region self = None \<or>
          (\<exists>f reg err. frame = Some f \<and> watermark_region self = Some reg \<and>
             process_frame_try inpaint self f reg = Inl err)) \<longrightarrow> r = frame)"
    by (auto simp: process_frame_def split: option.splits sum.splits)
next
  show "fst (frame_loop inpaint self None d n frames cur w) = Completed"
    by (rule frame_loop_no_callback_completes)
next
  fix f reg err
  assume a: "watermark_region self = Some reg \<and>
        process_frame_try inpaint self f reg = Inl err \<and> dirs w d \<noteq> None"
  then have "process_frame inpaint self (Some f) = Inr (Some f)"
    by (simp add: process_frame_def)
  with a show "written (snd (frame_loop inpaint self None d n [f] cur w)) =
        written w @ [(path_join d (frame_name cur), Some f)]"
    by (simp add: Let_def imwrite_written)
qed

text \<open>A primitive that always raises, on the sample processor.\<close>

theorem process_frame_never_raises_witness:
  "process_frame failing_inpaint demo_processor (Some frame_a) = Inr (Some frame_a) \<and>
   process_frame failing_inpaint demo_processor None = Inr None \<and>
   process_frame_try failing_inpaint demo_processor frame_a (0, 0, 1, 1) = Inl CvError \<and>
   written (snd (frame_loop failing_inpaint demo_processor None ''/out/temp_frames'' 2
      [frame_a] 0 (makedirs ''/out/temp_frames'' fresh_world)))
     = [(''/out/temp_frames/frame_000000.jpg'', Some frame_a)]"
proof -
  have t: "process_frame_try failing_inpaint demo_processor frame_a (0, 0, 1, 1) = Inl CvError"
    by (simp add: process_frame_try_def failing_inpaint_def Let_def)
  have d: "dirs (makedirs ''/out/temp_frames'' fresh_world) ''/out/temp_frames'' \<noteq> None"
    by (rule makedirs_dirs)
  note inst = process_frame_never_raises [of failing_inpaint demo_processor _ "''/out/temp_frames''"
      2 "[]" 0 "makedirs ''/out/temp_frames'' fresh_world"]
  from inst [of "Some frame_a"] t
  have 1: "process_frame failing_inpaint demo_processor (Some frame_a) = Inr (Some frame_a)"
    by (auto simp: demo_config)
  from inst [of None] have 2: "process_frame failing_inpaint demo_processor None = Inr None"
    by auto
  from inst [of None] t d
  have 3: "written (snd (frame_loop failing_inpaint demo_processor None ''/out/temp_frames'' 2
      [frame_a] 0 (makedirs ''/out/temp_frames'' fresh_world)))
     = written (makedirs ''/out/temp_frames'' fresh_world) @
         [(path_join ''/out/temp_frames'' (frame_name 0), Some frame_a)]"
    using demo_config(3) by blast
  from 1 2 3 t show ?thesis
    by (simp add: path_join_def frame_name_0 fresh_world_def)
qed

section \<open>Display and native coordinates: the round trip\<close>

lemma floor_rat_numeral_div [simp]:
  "\<lfloor>(numeral a :: rat) / numeral b\<rfloor> = numeral a div numeral b"
  using floor_divide_of_int_eq [of "numeral a" "numeral b", where ?'a = rat] by simp

lemma round_trip_core:
  fixes s :: rat and W v :: int
  assumes s: "0 < s" and W: "0 < W" and v0: "0 \<le> v" and vW: "v \<le> W"
  defines "d \<equiv> \<lfloor>(of_int v :: rat) * (of_int \<lfloor>of_int W * s\<rfloor> / of_int W)\<rfloor>"
  shows "0 \<le> d" and "of_int d / s \<le> of_int v" and "of_int v - 2 / s < of_int d / s"
proof -
  let ?pw = "\<lfloor>of_int W * s\<rfloor>"
  let ?sx = "(of_int ?pw :: rat) / of_int W"
  let ?t = "(of_int v :: rat) * ?sx"
  have Wr: "(0::rat) < of_int W" using W by simp
  have pw_le: "(of_int ?pw :: rat) \<le> of_int W * s" by (rule of_int_floor_le)
  have pw_gt: "of_int W * s - 1 < (of_int ?pw :: rat)" by linarith
  have pw0: "0 \<le> ?pw" using s W by (simp add: zero_le_floor)
  have sx0: "0 \<le> ?sx" using pw0 W by simp
  have sx_le: "?sx \<le> s"
    using pw_le Wr by (simp add: pos_divide_le_eq mult.commute)
  have sx_gt: "s - 1 / of_int W < ?sx"
  proof -
    have "(of_int W * s - 1) / of_int W < ?sx"
      using pw_gt Wr by (simp add: divide_strict_right_mono)
    moreover have "(of_int W * s - 1) / of_int W = s - 1 / of_int W"
      using Wr by (simp add: diff_divide_distrib)
    ultimately show ?thesis by simp
  qed
  have t0: "0 \<le> ?t" using v0 sx0 by (intro mult_nonneg_nonneg) simp_all
  have t_le: "?t \<le> of_int v * s"
    using sx_le v0 by (intro mult_left_mono) simp_all
  have t_ge: "of_int v * s - 1 \<le> ?t"
  proof -
    have "of_int v * (s - 1 / of_int W) \<le> ?t"
      using sx_gt v0 by (intro mult_left_mono) simp_all
    moreover have "(of_int v :: rat) / of_int W \<le> 1"
      using vW Wr by (simp add: pos_divide_le_eq)
    ultimately show ?thesis by (simp add: algebra_simps)
  qed
  show "0 \<le> d" unfolding d_def using t0 by (simp add: zero_le_floor)
  have d_le: "(of_int d :: rat) \<le> ?t" unfolding d_def by (rule of_int_floor_le)
  have d_gt: "?t - 1 < (of_int d :: rat)" unfolding d_def by linarith
  from d_le t_le have "(of_int d :: rat) \<le> of_int v * s" by simp
  then show "of_int d / s \<le> of_int v"
    using s by (simp add: pos_divide_le_eq)
  from d_gt t_ge have "of_int v * s - 2 < (of_int d :: rat)" by simp
  then have "(of_int v * s - 2) / s < of_int d / s"
    using s by (simp add: divide_strict_right_mono)
  moreover have "(of_int v * s - 2) / s = of_int v - 2 / s"
    using s by (simp add: diff_divide_distrib)
  ultimately show "of_int v - 2 / s < of_int d / s" by simp
qed

lemma round_trip_floor:
  fixes s :: rat and W v :: int
  assumes "0 < s" and "0 < W" and "0 \<le> v" and "v \<le> W"
  defines "d \<equiv> \<lfloor>(of_int v :: rat) * (of_int \<lfloor>of_int W * s\<rfloor> / of_int W)\<rfloor>"
  shows "\<lfloor>of_int d / s\<rfloor> \<le> v" and "of_int (v - \<lfloor>of_int d / s\<rfloor>) < 1 + 2 / s"
    and "0 \<le> \<lfloor>of_int d / s\<rfloor>"
proof -
  have c1: "0 \<le> d" and c2: "of_int d / s \<le> of_int v" and c3: "of_int v - 2 / s < of_int d / s"
    unfolding d_def by (rule round_trip_core [OF assms(1-4)])+
  have "(of_int \<lfloor>of_int d / s\<rfloor> :: rat) \<le> of_int d / s" by (rule of_int_floor_le)
  with c2 have "(of_int \<lfloor>of_int d / s\<rfloor> :: rat) \<le> of_int v" by linarith
  then show "\<lfloor>of_int d / s\<rfloor> \<le> v" by (simp only: of_int_le_iff)
  have "of_int d / s - 1 < (of_int \<lfloor>of_int d / s\<rfloor> :: rat)" by linarith
  with c3 show "of_int (v - \<lfloor>of_int d / s\<rfloor>) < 1 + 2 / s" by simp
  from c1 assms(1) show "0 \<le> \<lfloor>of_int d / s\<rfloor>" by (simp add: zero_le_floor)
qed

lemma close_when_scale_ge_2:
  fixes s :: rat and v v' :: int
  assumes "2 \<le> s" and "v' \<le> v" and "of_int (v - v') < 1 + 2 / s"
  shows "\<bar>v - v'\<bar> \<le> 1"
proof -
  have "2 / s \<le> 1" using assms(1) by (simp add: pos_divide_le_eq)
  with assms(3) have "(of_int (v - v') :: rat) < 2" by linarith
  then have "v - v' < 2" by (metis of_int_less_iff of_int_numeral)
  with assms(2) show ?thesis by linarith
qed

text \<open>
  C5 (as amended). Let a label show an image of size \<open>W\<close> by \<open>H\<close> with scale factor
  \<open>s > 0\<close>, its pixmap having the truncated scaled size that set_image gives it (not
  empty), at any offset. For a native region inside the image whose displayed rectangle
  is not null, mapping to display coordinates and back with get_scaled_rect yields a
  rectangle each of whose x, y, width and height is at most the original value and less
  than \<open>1 + 2/s\<close> below it. In particular the round trip is within one pixel when
  \<open>s \<ge> 2\<close>. (Arithmetic on floats is taken as exact.)
\<close>

theorem get_scaled_rect_round_trip:
  fixes s :: rat
  assumes s: "0 < s" and W: "0 < W" and H: "0 < H"
    and reg: "0 \<le> x" "0 \<le> y" "0 \<le> w" "0 \<le> h" "x + w \<le> W" "y + h \<le> H"
    and lab: "scale_factor label = s" "original_size label = (W, H)"
      "pixmap_size label = Some (py_int (of_int W * s), py_int (of_int H * s))"
    and pix: "1 \<le> of_int W * s" "1 \<le> of_int H * s"
    and sel: "selection (detect_watermark label (Some (x, y, w, h))) = Some disp"
      "\<not> qrect_is_null disp"
  shows "\<exists>x' y' w' h'.
           get_scaled_rect (detect_watermark label (Some (x, y, w, h))) = Some (x', y', w', h') \<and>
           x' \<le> x \<and> of_int (x - x') < 1 + 2 / s \<and>
           y' \<le> y \<and> of_int (y - y') < 1 + 2 / s \<and>
           w' \<le> w \<and> of_int (w - w') < 1 + 2 / s \<and>
           h' \<le> h \<and> of_int (h - h') < 1 + 2 / s \<and>
           (2 \<le> s \<longrightarrow> within_one_pixel (x, y, w, h) (x', y', w', h'))"
proof -
  define pw where "pw = \<lfloor>of_int W * s\<rfloor>"
  define ph where "ph = \<lfloor>of_int H * s\<rfloor>"
  define px where "px = (fst (label_size label) - pw) div 2"
  define py where "py = (snd (label_size label) - ph) div 2"
  define dx where "dx = \<lfloor>of_int x * ((of_int pw :: rat) / of_int W)\<rfloor>"
  define dy where "dy = \<lfloor>of_int y * ((of_int ph :: rat) / of_int H)\<rfloor>"
  define dw where "dw = \<lfloor>of_int w * ((of_int pw :: rat) / of_int W)\<rfloor>"
  define dh where "dh = \<lfloor>of_int h * ((of_int ph :: rat) / of_int H)\<rfloor>"
  have pw1: "1 \<le> pw" and ph1: "1 \<le> ph"
    using pix by (simp_all add: pw_def ph_def le_floor_iff)
  have Ws: "0 \<le> of_int W * s" and Hs: "0 \<le> of_int H * s" using pix by simp_all
  have pm: "pixmap_size label = Some (pw, ph)"
    using lab(3) Ws Hs by (simp add: py_int_def pw_def ph_def)
  have gpr: "get_pixmap_rect label = Some (px, py, pw, ph)"
    using pm pw1 ph1 by (simp add: get_pixmap_rect_def px_def py_def split: prod.splits)
  have sx0: "(0::rat) \<le> of_int pw / of_int W" and sy0: "(0::rat) \<le> of_int ph / of_int H"
    using pw1 ph1 W H by simp_all
  have nn: "(0::rat) \<le> of_int x * (of_int pw / of_int W)" "(0::rat) \<le> of_int y * (of_int ph / of_int H)"
      "(0::rat) \<le> of_int w * (of_int pw / of_int W)" "(0::rat) \<le> of_int h * (of_int ph / of_int H)"
    using reg sx0 sy0 by (intro mult_nonneg_nonneg; simp)+
  have det: "detect_watermark label (Some (x, y, w, h)) =
      label\<lparr>selection := Some (dx + px, dy + py, dw, dh)\<rparr>"
    using gpr pw1 ph1 nn
    by (simp add: detect_watermark_def qrect_is_null_def Let_def lab(2) py_int_def
        dx_def dy_def dw_def dh_def)
  from sel det have disp: "disp = (dx + px, dy + py, dw, dh)" by simp
  with sel(2) have nonnull: "\<not> (dw = 0 \<and> dh = 0)" by (simp add: qrect_is_null_def)
  have xW: "x \<le> W" and wW: "w \<le> W" and yH: "y \<le> H" and hH: "h \<le> H"
    using reg by simp_all
  note fx = round_trip_floor [OF s W reg(1) xW, folded pw_def, folded dx_def]
    and cx = round_trip_core [OF s W reg(1) xW, folded pw_def, folded dx_def]
  note fy = round_trip_floor [OF s H reg(2) yH, folded ph_def, folded dy_def]
    and cy = round_trip_core [OF s H reg(2) yH, folded ph_def, folded dy_def]
  note fw = round_trip_floor [OF s W reg(3) wW, folded pw_def, folded dw_def]
    and cw = round_trip_core [OF s W reg(3) wW, folded pw_def, folded dw_def]
  note fh = round_trip_floor [OF s H reg(4) hH, folded ph_def, folded dh_def]
    and ch = round_trip_core [OF s H reg(4) hH, folded ph_def, folded dh_def]
  have qx: "(0::rat) \<le> of_int dx / s" and qy: "(0::rat) \<le> of_int dy / s"
    and qw: "(0::rat) \<le> of_int dw / s" and qh: "(0::rat) \<le> of_int dh / s"
    using cx(1) cy(1) cw(1) ch(1) s by simp_all
  have bx: "of_int dx / s \<le> (of_int W :: rat)" using cx(2) xW by (simp add: order_trans [OF cx(2)])
  have by': "of_int dy / s \<le> (of_int H :: rat)" using cy(2) yH by (simp add: order_trans [OF cy(2)])
  have bw: "of_int dw / s \<le> (of_int W :: rat) - of_int dx / s"
  proof -
    have "(of_int w :: rat) \<le> of_int W - of_int x" using reg(5) by linarith
    with cw(2) cx(2) show ?thesis by linarith
  qed
  have bh: "of_int dh / s \<le> (of_int H :: rat) - of_int dy / s"
  proof -
    have "(of_int h :: rat) \<le> of_int H - of_int y" using reg(6) by linarith
    with ch(2) cy(2) show ?thesis by linarith
  qed
  have res: "get_scaled_rect (detect_watermark label (Some (x, y, w, h))) =
      Some (\<lfloor>of_int dx / s\<rfloor>, \<lfloor>of_int dy / s\<rfloor>, \<lfloor>of_int dw / s\<rfloor>, \<lfloor>of_int dh / s\<rfloor>)"
    using gpr nonnull pw1 ph1 qx qy qw qh bx by' bw bh
    by (simp add: det get_scaled_rect_def get_pixmap_rect_def pm qrect_is_null_def Let_def lab
        py_int_def min_def max_def)
  have close: "within_one_pixel (x, y, w, h)
      (\<lfloor>of_int dx / s\<rfloor>, \<lfloor>of_int dy / s\<rfloor>, \<lfloor>of_int dw / s\<rfloor>, \<lfloor>of_int dh / s\<rfloor>)" if "2 \<le> s"
    unfolding within_one_pixel_def prod.case
    using close_when_scale_ge_2 [OF that fx(1,2)] close_when_scale_ge_2 [OF that fy(1,2)]
      close_when_scale_ge_2 [OF that fw(1,2)] close_when_scale_ge_2 [OF that fh(1,2)]
    by blast
  from res fx(1,2) fy(1,2) fw(1,2) fh(1,2) close show ?thesis by blast
qed

text \<open>A 200 by 150 image in a 500 by 375 label: scale factor 5/2.\<close>

theorem get_scaled_rect_round_trip_witness:
  "get_scaled_rect (detect_watermark
      (set_image \<lparr>selection = None, pixmap_size = None, label_size = (500, 375),
                    scale_factor = 1, original_size = (0, 0)\<rparr> (200, 150))
      (Some (101, 50, 51, 31))) = Some (100, 50, 50, 30) \<and>
   within_one_pixel (101, 50, 51, 31) (100, 50, 50, 30)"
proof -
  let ?label = "set_image \<lparr>selection = None, pixmap_size = None, label_size = (500, 375),
                    scale_factor = 1, original_size = (0, 0)\<rparr> (200, 150)"
  have lab: "scale_factor ?label = 5 / 2" "original_size ?label = (200, 150)"
      "pixmap_size ?label = Some (py_int (of_int 200 * (5 / 2)), py_int (of_int 150 * (5 / 2)))"
    by (simp_all add: set_image_def scale_image_def Let_def py_int_def)
  have sel: "selection (detect_watermark ?label (Some (101, 50, 51, 31))) = Some (252, 125, 127, 77)"
    by (simp add: set_image_def scale_image_def detect_watermark_def get_pixmap_rect_def qrect_is_null_def
        py_int_def Let_def)
  have nn: "\<not> qrect_is_null (252, 125, 127, 77)" by (simp add: qrect_is_null_def)
  have ev: "get_scaled_rect (detect_watermark ?label (Some (101, 50, 51, 31))) =
      Some (100, 50, 50, 30)"
    by (simp add: set_image_def scale_image_def detect_watermark_def get_scaled_rect_def get_pixmap_rect_def
        qrect_is_null_def py_int_def Let_def)
  from get_scaled_rect_round_trip [of "5 / 2" 200 150 101 50 51 31 ?label, OF _ _ _ _ _ _ _ _ _ lab _ _ sel nn]
  have "\<exists>x' y' w' h'.
      get_scaled_rect (detect_watermark ?label (Some (101, 50, 51, 31))) = Some (x', y', w', h') \<and>
      within_one_pixel (101, 50, 51, 31) (x', y', w', h')"
    by simp blast
  with ev show ?thesis by simp
qed

text \<open>
  The claim as stated fails for a small scale factor: a 1600 by 1200 image in a 400 by
  300 label has scale factor 1/4 (every float involved is exact), and the region at
  \<open>x = 1003\<close> comes back at \<open>x = 1000\<close>.
\<close>

theorem round_trip_off_by_three_counterexample:
  "region_invariant 1600 1200 (1003, 0, 100, 100) \<and>
   scale_factor (set_image \<lparr>selection = None, pixmap_size = None, label_size = (400, 300),
                    scale_factor = 1, original_size = (0, 0)\<rparr> (1600, 1200)) = 1 / 4 \<and>
   get_scaled_rect (detect_watermark
      (set_image \<lparr>selection = None, pixmap_size = None, label_size = (400, 300),
                    scale_factor = 1, original_size = (0, 0)\<rparr> (1600, 1200))
      (Some (1003, 0, 100, 100))) = Some (1000, 0, 100, 100) \<and>
   \<not> within_one_pixel (1003, 0, 100, 100) (1000, 0, 100, 100)"
  by (simp add: set_image_def scale_image_def detect_watermark_def get_scaled_rect_def get_pixmap_rect_def
      qrect_is_null_def py_int_def Let_def region_invariant_def within_one_pixel_def)

end
